theory Spec2Isabelle
  imports Main "HOL-Library.Sublist" "HOL-Library.Multiset"
begin

section \<open>Data model (src/types.ts)\<close>

text \<open>
  JavaScript strings are modelled as \<^typ>\<open>string\<close>, read as the UTF-8 bytes of a
  well-formed string; an optional field is an \<^typ>\<open>'a option\<close>. The field \<open>id\<close> of
  \<open>TrendItem\<close> is called \<open>id_str\<close> here, since \<open>id\<close> is the identity function of HOL,
  and the fields of \<open>NewsItem\<close> carry the prefix \<open>news_\<close> to keep them apart from those
  of \<open>TrendItem\<close>.
\<close>

record NewsItem =
  news_title :: string
  news_url :: string
  news_source :: string
  news_imageUrl :: "string option"

record TrendItem =
  id_str :: string
  title :: string
  traffic :: string
  pubDate :: string
  mainPicture :: "string option"
  pictureSource :: "string option"
  newsItems :: "NewsItem list"

datatype sort_order = Asc | Desc

text \<open>The component state of \<open>App\<close> (src/App.tsx, lines 9-15), one field per \<open>useState\<close>.\<close>

record app_state =
  bdTrends :: "TrendItem list"
  ukTrends :: "TrendItem list"
  lastUpdated :: string
  loading :: bool
  isLive :: bool
  errorMessage :: "string option"
  sortOrder :: sort_order

definition initial_state :: app_state where
  "initial_state =
     \<lparr>bdTrends = [], ukTrends = [], lastUpdated = [], loading = True, isLive = False,
      errorMessage = None, sortOrder = Desc\<rparr>"


section \<open>Errors, promises and the network\<close>

text \<open>
  A thrown value is an \<open>Error\<close> with its message. A settled promise is a sum: \<open>Inl\<close> a
  rejection, \<open>Inr\<close> the value it resolved with. The network (\<open>fetch\<close>) maps the URL
  requested to the settled promise of a response, whose \<open>ok\<close> flag and body text
  (\<open>response.text()\<close>, itself a promise) are all that \<open>fetchFeed\<close> reads.
\<close>

datatype error = Error string

type_synonym 'a promise = "error + 'a"

record response =
  ok :: bool
  text_body :: "string promise"

type_synonym network = "string \<Rightarrow> response promise"


section \<open>String primitives of the platform\<close>

text \<open>
  \<open>hay.includes(needle)\<close>, called \<open>str_includes\<close> here: \<open>needle\<close> occurs in \<open>hay\<close> as
  a contiguous run.
\<close>

fun str_includes :: "string \<Rightarrow> string \<Rightarrow> bool" where
  "str_includes [] needle = (needle = [])"
| "str_includes (c # cs) needle = (prefix needle (c # cs) \<or> str_includes cs needle)"

text \<open>
  \<open>encodeURIComponent\<close> on the UTF-8 bytes of a string: every byte that is not an
  unreserved mark is written as \<open>%\<close> and two upper-case hexadecimal digits.
\<close>

definition unreserved :: "char \<Rightarrow> bool" where
  "unreserved c \<longleftrightarrow>
     c \<in> set ''ABCDEFGHIJKLMNOPQRSTUVWXYZabcdefghijklmnopqrstuvwxyz0123456789-_.!~*()''
     \<or> c = CHR 0x27"

definition hex_digit :: "nat \<Rightarrow> char" where
  "hex_digit n = ''0123456789ABCDEF'' ! (n mod 16)"

definition percent_encode :: "char \<Rightarrow> string" where
  "percent_encode c =
     [CHR ''%'', hex_digit ((of_char c :: nat) div 16), hex_digit ((of_char c :: nat) mod 16)]"

definition encodeURIComponent :: "string \<Rightarrow> string" where
  "encodeURIComponent s = concat (map (\<lambda>c. if unreserved c then [c] else percent_encode c) s)"


section \<open>The proxy-fallback fetcher: \<open>fetchFeed\<close> (src/App.tsx, lines 18-51)\<close>

definition RSS_URL :: "string \<Rightarrow> string" where
  "RSS_URL geo = ''https://trends.google.com/trending/rss?geo='' @ geo"

definition proxyGenerators :: "(string \<Rightarrow> string) list" where
  "proxyGenerators =
     [\<lambda>url. ''https://api.allorigins.win/raw?url='' @ encodeURIComponent url,
      \<lambda>url. ''https://corsproxy.io/?'' @ encodeURIComponent url,
      \<lambda>url. ''https://api.codetabs.com/v1/proxy?quest='' @ encodeURIComponent url]"

text \<open>
  The body of the \<open>try\<close> block of the loop, for one relay (lines 33-43): \<open>Some\<close> the text
  that \<open>fetchFeed\<close> returns from inside the loop, \<open>None\<close> when the iteration ends without
  a \<open>return\<close> (a rejected \<open>fetch\<close> or \<open>text()\<close> is caught at line 44, a response that is
  not ok or has no XML marker falls through).
\<close>

definition attempt :: "network \<Rightarrow> string \<Rightarrow> string option" where
  "attempt net proxyUrl =
     (case net proxyUrl of
        Inl err \<Rightarrow> None
      | Inr response \<Rightarrow>
          if ok response then
            (case text_body response of
               Inl err \<Rightarrow> None
             | Inr body \<Rightarrow>
                 if str_includes body ''<rss'' \<or> str_includes body ''<?xml'' then Some body else None)
          else None)"

text \<open>
  The \<open>for\<close> loop over the generators (lines 32-48). The second component is the list of
  the URLs requested, in the order of the requests.
\<close>

fun try_proxies :: "network \<Rightarrow> string \<Rightarrow> (string \<Rightarrow> string) list \<Rightarrow> string option \<times> string list" where
  "try_proxies net url [] = (None, [])"
| "try_proxies net url (generateUrl # rest) =
     (let proxyUrl = generateUrl url in
      case attempt net proxyUrl of
        Some body \<Rightarrow> (Some body, [proxyUrl])
      | None \<Rightarrow>
          (case try_proxies net url rest of (r, requests) \<Rightarrow> (r, proxyUrl # requests)))"

definition unreachable :: "string \<Rightarrow> error" where
  "unreachable geo =
     Error (''Unable to reach Google Trends for '' @ geo @ '' via any available proxy.'')"

definition fetchFeed :: "network \<Rightarrow> string \<Rightarrow> string promise \<times> string list" where
  "fetchFeed net geo =
     (case try_proxies net (RSS_URL geo) proxyGenerators of
        (Some body, requests) \<Rightarrow> (Inr body, requests)
      | (None, requests) \<Rightarrow> (Inl (unreachable geo), requests))"

text \<open>\<open>await fetchFeed(geo)\<close>: the settled promise alone.\<close>

definition fetchFeed_result :: "network \<Rightarrow> string \<Rightarrow> string promise" where
  "fetchFeed_result net geo = fst (fetchFeed net geo)"


section \<open>The feed loader: \<open>loadData\<close> (src/App.tsx, lines 54-90)\<close>

text \<open>
  Modelled from the spec: \<open>parseTrendsXML\<close> (./utils/xmlParser) and the two bundled
  documents \<open>BANGLADESH_XML\<close> and \<open>UK_XML\<close> (./data/sampleFeeds) are imported by
  src/App.tsx and are not among the sources. The spec gives the parser as total (it
  returns a sequence for every text and never throws) and the documents as fixed
  constants; they are the parameters \<open>deps\<close> of the loader.
\<close>

record deps =
  parseTrendsXML :: "string \<Rightarrow> TrendItem list"
  BANGLADESH_XML :: string
  UK_XML :: string

text \<open>
  What one invocation of \<open>loadData\<close> meets outside the program: the network, and the
  string \<open>new Date().toLocaleTimeString()\<close> at the moment it writes \<open>lastUpdated\<close>.
\<close>

record world =
  fetch :: network
  clock :: string

text \<open>
  A block of statements takes the component state and gives the state it leaves with the
  error it throws, if any: state written before a \<open>throw\<close> stays written.
\<close>

type_synonym stmt = "app_state \<Rightarrow> error option \<times> app_state"

text \<open>
  \<open>try { body } catch (e) { handler } finally { final }\<close>: the handler runs on what the
  body throws, the final block runs in every case, and what it throws replaces the
  completion of the rest.
\<close>

definition try_catch_finally :: "stmt \<Rightarrow> (error \<Rightarrow> stmt) \<Rightarrow> stmt \<Rightarrow> stmt" where
  "try_catch_finally body handler final s =
     (case (case body s of
              (None, s1) \<Rightarrow> (None, s1)
            | (Some e, s1) \<Rightarrow> handler e s1) of
        (thrown, s2) \<Rightarrow>
          (case final s2 of
             (None, s3) \<Rightarrow> (thrown, s3)
           | (Some e', s3) \<Rightarrow> (Some e', s3)))"

text \<open>
  \<open>Promise.all\<close> of two promises. When both reject, JavaScript rejects with the one that
  rejected first in time; the model takes the first of the array. \<open>loadData\<close> hands the
  error to \<open>console.warn\<close> only, which is not modelled.
\<close>

definition Promise_all2 :: "'a promise \<Rightarrow> 'b promise \<Rightarrow> ('a \<times> 'b) promise" where
  "Promise_all2 p q =
     (case p of
        Inl e \<Rightarrow> Inl e
      | Inr a \<Rightarrow> (case q of Inl e \<Rightarrow> Inl e | Inr b \<Rightarrow> Inr (a, b)))"

text \<open>Lines 55-56: what a call of \<open>loadData\<close> does before it suspends at the \<open>await\<close>.\<close>

definition loadData_enter :: "app_state \<Rightarrow> app_state" where
  "loadData_enter s = s\<lparr>loading := True, errorMessage := None\<rparr>"

text \<open>
  The \<open>try\<close> block (lines 58-75). Nothing in it touches the component state before the
  \<open>await\<close>, so it is a block run on the state found when the two fetches have settled.
\<close>

definition loadData_try :: "deps \<Rightarrow> world \<Rightarrow> stmt" where
  "loadData_try d w s =
     (case Promise_all2 (fetchFeed_result (fetch w) ''BD'') (fetchFeed_result (fetch w) ''GB'') of
        Inl e \<Rightarrow> (Some e, s)
      | Inr (bdXml, ukXml) \<Rightarrow>
          (let parsedBd = parseTrendsXML d bdXml;
               parsedUk = parseTrendsXML d ukXml
           in if length parsedBd > 0 \<and> length parsedUk > 0
              then (None, s\<lparr>bdTrends := parsedBd, ukTrends := parsedUk, isLive := True,
                             lastUpdated := clock w\<rparr>)
              else (Some (Error ''Parsed data was empty''), s)))"

definition fallback_notice :: string where
  "fallback_notice = ''Live connection failed. Displaying cached data. Please try again later.''"

text \<open>The \<open>catch\<close> block (lines 77-85) and the \<open>finally\<close> block (lines 87-89).\<close>

definition loadData_catch :: "deps \<Rightarrow> world \<Rightarrow> error \<Rightarrow> stmt" where
  "loadData_catch d w err s =
     (None, s\<lparr>bdTrends := parseTrendsXML d (BANGLADESH_XML d),
               ukTrends := parseTrendsXML d (UK_XML d),
               isLive := False,
               lastUpdated := clock w,
               errorMessage := Some fallback_notice\<rparr>)"

definition loadData_finally :: stmt where
  "loadData_finally s = (None, s\<lparr>loading := False\<rparr>)"

text \<open>
  The rest of an invocation, from the moment the awaited promise settles to its exit. It
  has no further \<open>await\<close>, so it runs without interruption, on the state it finds.
\<close>

definition loadData_resume :: "deps \<Rightarrow> world \<Rightarrow> stmt" where
  "loadData_resume d w = try_catch_finally (loadData_try d w) (loadData_catch d w) loadData_finally"

text \<open>An invocation that runs from entry to exit with nothing else in between.\<close>

definition loadData :: "deps \<Rightarrow> world \<Rightarrow> stmt" where
  "loadData d w s = loadData_resume d w (loadData_enter s)"

text \<open>
  Nothing excludes a second call while a first one is suspended (the timer of lines 97-99
  and the refresh button both call \<open>loadData\<close>). The event loop then runs the pieces of
  the invocations one at a time: \<open>Invoke\<close> is a call running up to its \<open>await\<close>,
  \<open>Settle w\<close> a suspended invocation running from there to its exit, having met \<open>w\<close>.
\<close>

datatype event = Invoke | Settle world

fun run :: "deps \<Rightarrow> event list \<Rightarrow> app_state \<Rightarrow> app_state" where
  "run d [] s = s"
| "run d (Invoke # es) s = run d es (loadData_enter s)"
| "run d (Settle w # es) s = run d es (snd (loadData_resume d w s))"


section \<open>The sort layer: \<open>sortTrends\<close> and \<open>toggleSort\<close> (src/App.tsx, lines 106-119)\<close>

text \<open>
  \<open>new Date(s).getTime()\<close> belongs to the platform: it is the parameter \<open>getTime\<close>, with
  \<open>None\<close> for \<open>NaN\<close> (an invalid date) and otherwise the time value, a whole number of
  milliseconds since the epoch. \<open>x || 0\<close> is \<open>0\<close> when \<open>x\<close> is \<open>NaN\<close> or \<open>0\<close>.
\<close>

type_synonym date_parser = "string \<Rightarrow> int option"

definition timestamp :: "date_parser \<Rightarrow> TrendItem \<Rightarrow> int" where
  "timestamp getTime a =
     (case getTime (pubDate a) of
        None \<Rightarrow> 0
      | Some t \<Rightarrow> if t = 0 then 0 else t)"

text \<open>
  The comparator of lines 107-111. Time values are whole numbers of magnitude at most
  8.64e15, so the difference computed in double precision has the sign of the
  difference of the integers, and the sort reads the sign only.
\<close>

definition compare_dates :: "date_parser \<Rightarrow> sort_order \<Rightarrow> TrendItem \<Rightarrow> TrendItem \<Rightarrow> int" where
  "compare_dates getTime order a b =
     (let dateA = timestamp getTime a;
          dateB = timestamp getTime b
      in if order = Desc then dateB - dateA else dateA - dateB)"

text \<open>
  \<open>Array.prototype.sort\<close> with a comparator is stable (ECMAScript 2019): the result is
  ordered by the comparator and items that compare equal keep their relative order.
  Insertion from the right, placing an item before the first one it does not exceed,
  computes that list.
\<close>

fun insert_by :: "('a \<Rightarrow> 'a \<Rightarrow> int) \<Rightarrow> 'a \<Rightarrow> 'a list \<Rightarrow> 'a list" where
  "insert_by cmp x [] = [x]"
| "insert_by cmp x (y # ys) = (if cmp x y \<le> 0 then x # y # ys else y # insert_by cmp x ys)"

definition sort_by :: "('a \<Rightarrow> 'a \<Rightarrow> int) \<Rightarrow> 'a list \<Rightarrow> 'a list" where
  "sort_by cmp xs = foldr (insert_by cmp) xs []"

text \<open>\<open>sortTrends\<close> on values: the list returned for the list passed in.\<close>

definition sortTrends :: "date_parser \<Rightarrow> sort_order \<Rightarrow> TrendItem list \<Rightarrow> TrendItem list" where
  "sortTrends getTime order items = sort_by (compare_dates getTime order) items"

text \<open>
  \<open>sortTrends\<close> on references. Arrays live in a store, a reference is an index into it.
  \<open>[...items]\<close> allocates a new array with the elements of \<open>items\<close>; \<open>sort\<close> orders the
  array it is called on in place and returns the same reference.
\<close>

type_synonym 'a store = "'a list list"

definition spread :: "'a store \<Rightarrow> nat \<Rightarrow> 'a store \<times> nat" where
  "spread h items = (h @ [h ! items], length h)"

definition sort_in_place :: "('a \<Rightarrow> 'a \<Rightarrow> int) \<Rightarrow> 'a store \<Rightarrow> nat \<Rightarrow> 'a store \<times> nat" where
  "sort_in_place cmp h r = (h[r := sort_by cmp (h ! r)], r)"

definition sortTrends_ref ::
  "date_parser \<Rightarrow> sort_order \<Rightarrow> TrendItem store \<Rightarrow> nat \<Rightarrow> TrendItem store \<times> nat" where
  "sortTrends_ref getTime order h items =
     (case spread h items of
        (h1, copy) \<Rightarrow> sort_in_place (compare_dates getTime order) h1 copy)"

text \<open>Lines 114-119: the two derived columns and the toggle of the sort order.\<close>

definition sortedBdTrends :: "date_parser \<Rightarrow> app_state \<Rightarrow> TrendItem list" where
  "sortedBdTrends getTime s = sortTrends getTime (sortOrder s) (bdTrends s)"

definition sortedUkTrends :: "date_parser \<Rightarrow> app_state \<Rightarrow> TrendItem list" where
  "sortedUkTrends getTime s = sortTrends getTime (sortOrder s) (ukTrends s)"

definition toggleSort :: "app_state \<Rightarrow> app_state" where
  "toggleSort s = s\<lparr>sortOrder := (if sortOrder s = Desc then Asc else Desc)\<rparr>"


section \<open>Inputs of the examples\<close>

text \<open>
  Three networks: every relay refuses the connection; every relay answers with a feed
  of one entry; every relay answers with a feed of no entry. In the fourth the first
  relay answers the request for \<open>BD\<close> with an error page under an ok status, the second
  with the feed, and nothing else answers.
\<close>

definition live_feed :: string where
  "live_feed = ''<rss><channel><item>Live</item></channel></rss>''"

definition empty_feed :: string where
  "empty_feed = ''<rss><channel></channel></rss>''"

definition relays_down :: network where
  "relays_down u = Inl (Error ''Failed to fetch'')"

definition relays_up :: network where
  "relays_up u = Inr \<lparr>ok = True, text_body = Inr live_feed\<rparr>"

definition relays_empty :: network where
  "relays_empty u = Inr \<lparr>ok = True, text_body = Inr empty_feed\<rparr>"

definition second_relay_up :: network where
  "second_relay_up u =
     (if u = ''https://api.allorigins.win/raw?url=https%3A%2F%2Ftrends.google.com%2Ftrending%2Frss%3Fgeo%3DBD''
      then Inr \<lparr>ok = True, text_body = Inr ''<html>Too many requests</html>''\<rparr>
      else if u = ''https://corsproxy.io/?https%3A%2F%2Ftrends.google.com%2Ftrending%2Frss%3Fgeo%3DBD''
      then Inr \<lparr>ok = True, text_body = Inr live_feed\<rparr>
      else Inl (Error ''Failed to fetch''))"

text \<open>
  The parser of the examples gives one item for a document with an \<open><item>\<close> element
  and none for any other; the item keeps the document as its title.
\<close>

definition example_parse :: "string \<Rightarrow> TrendItem list" where
  "example_parse xml =
     (if str_includes xml ''<item>''
      then [\<lparr>id_str = ''trend-0'', title = xml, traffic = ''100+'',
             pubDate = ''Tue, 03 Nov 2026 09:00:00 GMT'', mainPicture = None,
             pictureSource = None, newsItems = []\<rparr>]
      else [])"

definition example_deps :: deps where
  "example_deps =
     \<lparr>parseTrendsXML = example_parse,
      BANGLADESH_XML = ''<rss><channel><item>Sample BD</item></channel></rss>'',
      UK_XML = ''<rss><channel><item>Sample UK</item></channel></rss>''\<rparr>"

definition live_world :: world where
  "live_world = \<lparr>fetch = relays_up, clock = ''09:15:07''\<rparr>"

definition down_world :: world where
  "down_world = \<lparr>fetch = relays_down, clock = ''09:15:02''\<rparr>"

definition empty_world :: world where
  "empty_world = \<lparr>fetch = relays_empty, clock = ''09:15:03''\<rparr>"

text \<open>
  The dates of the examples, as \<open>new Date(s).getTime()\<close> reads them: two dates of
  November 2026, the last second before the epoch, and no date for any other string
  (the empty string is an invalid date).
\<close>

definition example_getTime :: date_parser where
  "example_getTime s =
     (if s = ''Tue, 03 Nov 2026 09:00:00 GMT'' then Some 1793696400000
      else if s = ''Tue, 03 Nov 2026 08:30:00 GMT'' then Some 1793694600000
      else if s = ''1969-12-31T23:59:59.000Z'' then Some (- 1000)
      else None)"

definition item_at :: "string \<Rightarrow> string \<Rightarrow> TrendItem" where
  "item_at name date =
     \<lparr>id_str = name, title = name, traffic = ''100+'', pubDate = date, mainPicture = None,
      pictureSource = None, newsItems = []\<rparr>"


text \<open>A state of the component after a live load, holding three and two items.\<close>

definition example_state :: app_state where
  "example_state =
     \<lparr>bdTrends = [item_at ''a'' ''Tue, 03 Nov 2026 09:00:00 GMT'', item_at ''u'' [],
                  item_at ''b'' ''Tue, 03 Nov 2026 08:30:00 GMT''],
      ukTrends = [item_at ''b'' ''Tue, 03 Nov 2026 08:30:00 GMT'',
                  item_at ''a'' ''Tue, 03 Nov 2026 09:00:00 GMT''],
      lastUpdated = ''09:15:07'', loading = False, isLive = True, errorMessage = None,
      sortOrder = Desc\<rparr>"


section \<open>Facts about the fetcher\<close>

lemma str_includes_iff: "str_includes hay needle \<longleftrightarrow> (\<exists>pre suf. hay = pre @ needle @ suf)"
proof (induction hay)
  case Nil
  then show ?case by auto
next
  case (Cons c cs)
  show ?case
  proof
    assume "str_includes (c # cs) needle"
    then consider "prefix needle (c # cs)" | "str_includes cs needle" by auto
    then show "\<exists>pre suf. c # cs = pre @ needle @ suf"
    proof cases
      case 1
      then obtain suf where "c # cs = needle @ suf" by (auto simp: prefix_def)
      then have "c # cs = [] @ needle @ suf" by simp
      then show ?thesis by blast
    next
      case 2
      with Cons.IH obtain pre suf where "cs = pre @ needle @ suf" by blast
      then have "c # cs = (c # pre) @ needle @ suf" by simp
      then show ?thesis by blast
    qed
  next
    assume "\<exists>pre suf. c # cs = pre @ needle @ suf"
    then obtain pre suf where eq: "c # cs = pre @ needle @ suf" by blast
    show "str_includes (c # cs) needle"
    proof (cases pre)
      case Nil
      with eq have "prefix needle (c # cs)" by (simp add: prefix_def)
      then show ?thesis by simp
    next
      case (Cons p ps)
      with eq have "cs = ps @ needle @ suf" by simp
      with Cons.IH have "str_includes cs needle" by blast
      then show ?thesis by simp
    qed
  qed
qed

lemma attempt_Some_iff:
  "attempt net proxyUrl = Some body \<longleftrightarrow>
     (\<exists>r. net proxyUrl = Inr r \<and> ok r \<and> text_body r = Inr body \<and>
          (str_includes body ''<rss'' \<or> str_includes body ''<?xml''))"
  unfolding attempt_def by (auto split: sum.splits if_splits)

lemma try_proxies_skip:
  "attempt net (generateUrl url) = None \<Longrightarrow>
   try_proxies net url (generateUrl # rest) =
     (fst (try_proxies net url rest), generateUrl url # snd (try_proxies net url rest))"
  by (simp add: Let_def split: prod.splits)

lemma try_proxies_exhausted:
  "\<forall>p\<in>set gs. attempt net (p url) = None \<Longrightarrow>
   try_proxies net url gs = (None, map (\<lambda>p. p url) gs)"
  by (induction gs) (simp_all add: Let_def)

lemma try_proxies_first_accepted:
  "\<forall>p\<in>set pre. attempt net (p url) = None \<Longrightarrow> attempt net (g url) = Some body \<Longrightarrow>
   try_proxies net url (pre @ g # post) = (Some body, map (\<lambda>p. p url) (pre @ [g]))"
  by (induction pre) (simp_all add: Let_def)

lemma proxy_urls_distinct: "distinct (map (\<lambda>p. p url) proxyGenerators)"
  by (simp add: proxyGenerators_def)

lemma encoded_BD:
  "encodeURIComponent (RSS_URL ''BD'') =
     ''https%3A%2F%2Ftrends.google.com%2Ftrending%2Frss%3Fgeo%3DBD''"
  by (simp add: RSS_URL_def encodeURIComponent_def unreserved_def percent_encode_def hex_digit_def)

lemma proxy_urls_BD:
  "map (\<lambda>p. p (RSS_URL ''BD'')) proxyGenerators =
     [''https://api.allorigins.win/raw?url=https%3A%2F%2Ftrends.google.com%2Ftrending%2Frss%3Fgeo%3DBD'',
      ''https://corsproxy.io/?https%3A%2F%2Ftrends.google.com%2Ftrending%2Frss%3Fgeo%3DBD'',
      ''https://api.codetabs.com/v1/proxy?quest=https%3A%2F%2Ftrends.google.com%2Ftrending%2Frss%3Fgeo%3DBD'']"
  by (simp add: proxyGenerators_def encoded_BD)

lemma fetchFeed_result_up: "fetchFeed_result relays_up geo = Inr live_feed"
  by (simp add: fetchFeed_result_def fetchFeed_def proxyGenerators_def attempt_def
      relays_up_def live_feed_def)

lemma fetchFeed_result_empty: "fetchFeed_result relays_empty geo = Inr empty_feed"
  by (simp add: fetchFeed_result_def fetchFeed_def proxyGenerators_def attempt_def
      relays_empty_def empty_feed_def)

lemma fetchFeed_result_down: "fetchFeed_result relays_down geo = Inl (unreachable geo)"
  by (simp add: fetchFeed_result_def fetchFeed_def proxyGenerators_def attempt_def
      relays_down_def)

lemma example_parse_live: "example_parse live_feed \<noteq> []"
  by (simp add: example_parse_def live_feed_def)

lemma example_parse_empty: "example_parse empty_feed = []"
  by (simp add: example_parse_def empty_feed_def)



section \<open>The fetcher: relay order and the acceptance test\<close>

text \<open>
  Claim C3. For every geography code and every behaviour of the network, \<open>fetchFeed\<close>
  requests the URLs of the relay generators in their fixed order, each at most once.
  When the generators before \<open>g\<close> all end without an accepted response and the response
  of \<open>g\<close> is accepted, the call resolves with the body text of \<open>g\<close> and has requested
  exactly the URLs up to that of \<open>g\<close>. When no response is accepted, the call has
  requested all three URLs, once each, and rejects with an error whose message names
  the geography. The three URLs are pairwise distinct, so the three responses can be
  any three outcomes.
\<close>

theorem fetchFeed_first_accepted_relay:
  "(proxyGenerators = pre @ g # post \<and>
    (\<forall>p\<in>set pre. attempt net (p (RSS_URL geo)) = None) \<and>
    attempt net (g (RSS_URL geo)) = Some body
      \<longrightarrow> fetchFeed net geo = (Inr body, map (\<lambda>p. p (RSS_URL geo)) (pre @ [g])))
   \<and> ((\<forall>p\<in>set proxyGenerators. attempt net (p (RSS_URL geo)) = None)
      \<longrightarrow> fetchFeed net geo =
            (Inl (Error (''Unable to reach Google Trends for '' @ geo @ '' via any available proxy.'')),
             map (\<lambda>p. p (RSS_URL geo)) proxyGenerators))
   \<and> length proxyGenerators = 3
   \<and> distinct (map (\<lambda>p. p (RSS_URL geo)) proxyGenerators)"
proof (intro conjI impI)
  assume h: "proxyGenerators = pre @ g # post \<and>
    (\<forall>p\<in>set pre. attempt net (p (RSS_URL geo)) = None) \<and>
    attempt net (g (RSS_URL geo)) = Some body"
  then have "try_proxies net (RSS_URL geo) proxyGenerators =
      (Some body, map (\<lambda>p. p (RSS_URL geo)) (pre @ [g]))"
    using try_proxies_first_accepted [of pre net "RSS_URL geo" g body post] by simp
  then show "fetchFeed net geo = (Inr body, map (\<lambda>p. p (RSS_URL geo)) (pre @ [g]))"
    by (simp add: fetchFeed_def)
next
  assume "\<forall>p\<in>set proxyGenerators. attempt net (p (RSS_URL geo)) = None"
  then have "try_proxies net (RSS_URL geo) proxyGenerators =
      (None, map (\<lambda>p. p (RSS_URL geo)) proxyGenerators)"
    by (rule try_proxies_exhausted)
  then show "fetchFeed net geo =
            (Inl (Error (''Unable to reach Google Trends for '' @ geo @ '' via any available proxy.'')),
             map (\<lambda>p. p (RSS_URL geo)) proxyGenerators)"
    by (simp add: fetchFeed_def unreachable_def)
next
  show "length proxyGenerators = 3" by (simp add: proxyGenerators_def)
next
  show "distinct (map (\<lambda>p. p (RSS_URL geo)) proxyGenerators)" by (rule proxy_urls_distinct)
qed

text \<open>
  At the network whose second relay alone delivers the feed for \<open>BD\<close>, and at the
  network where every relay is down.
\<close>

theorem fetchFeed_first_accepted_relay_witness:
  "fetchFeed second_relay_up ''BD'' =
     (Inr live_feed,
      [''https://api.allorigins.win/raw?url=https%3A%2F%2Ftrends.google.com%2Ftrending%2Frss%3Fgeo%3DBD'',
       ''https://corsproxy.io/?https%3A%2F%2Ftrends.google.com%2Ftrending%2Frss%3Fgeo%3DBD''])
   \<and> fetchFeed relays_down ''BD'' =
     (Inl (Error ''Unable to reach Google Trends for BD via any available proxy.''),
      [''https://api.allorigins.win/raw?url=https%3A%2F%2Ftrends.google.com%2Ftrending%2Frss%3Fgeo%3DBD'',
       ''https://corsproxy.io/?https%3A%2F%2Ftrends.google.com%2Ftrending%2Frss%3Fgeo%3DBD'',
       ''https://api.codetabs.com/v1/proxy?quest=https%3A%2F%2Ftrends.google.com%2Ftrending%2Frss%3Fgeo%3DBD''])"
proof -
  let ?g1 = "\<lambda>url. ''https://api.allorigins.win/raw?url='' @ encodeURIComponent url"
  let ?g2 = "\<lambda>url. ''https://corsproxy.io/?'' @ encodeURIComponent url"
  let ?g3 = "\<lambda>url. ''https://api.codetabs.com/v1/proxy?quest='' @ encodeURIComponent url"
  have split: "proxyGenerators = [?g1] @ ?g2 # [?g3]"
    by (simp add: proxyGenerators_def)
  have skipped: "\<forall>p\<in>set [?g1]. attempt second_relay_up (p (RSS_URL ''BD'')) = None"
    by (simp add: encoded_BD attempt_def second_relay_up_def)
  have accepted: "attempt second_relay_up (?g2 (RSS_URL ''BD'')) = Some live_feed"
    by (simp add: encoded_BD attempt_def second_relay_up_def live_feed_def)
  have down: "\<forall>p\<in>set proxyGenerators. attempt relays_down (p (RSS_URL ''BD'')) = None"
    by (simp add: attempt_def relays_down_def)
  from fetchFeed_first_accepted_relay [of "[?g1]" ?g2 "[?g3]" second_relay_up "''BD''" live_feed]
    split skipped accepted
  have first: "fetchFeed second_relay_up ''BD'' =
      (Inr live_feed, map (\<lambda>p. p (RSS_URL ''BD'')) ([?g1] @ [?g2]))"
    by blast
  from fetchFeed_first_accepted_relay [of "[?g1]" ?g2 "[?g3]" relays_down "''BD''" live_feed] down
  have none: "fetchFeed relays_down ''BD'' =
      (Inl (Error (''Unable to reach Google Trends for '' @ ''BD'' @ '' via any available proxy.'')),
       map (\<lambda>p. p (RSS_URL ''BD'')) proxyGenerators)"
    by blast
  show ?thesis
    unfolding first none proxy_urls_BD by (simp add: encoded_BD)
qed

text \<open>
  Claim C4. One iteration of the loop returns the body text of a response if and only
  if the request resolved with a response whose status is ok, its body text could be
  read, and the text contains \<open><rss\<close> or \<open><?xml\<close>. An iteration that does not return
  is skipped: the loop goes on with the remaining generators, after the one request.
\<close>

theorem fetchFeed_acceptance_test:
  "(attempt net proxyUrl = Some body \<longleftrightarrow>
     (\<exists>r. net proxyUrl = Inr r \<and> ok r \<and> text_body r = Inr body \<and>
          (str_includes body ''<rss'' \<or> str_includes body ''<?xml'')))
   \<and> (attempt net (generateUrl url) = None \<longrightarrow>
        try_proxies net url (generateUrl # rest) =
          (fst (try_proxies net url rest), generateUrl url # snd (try_proxies net url rest)))"
  using attempt_Some_iff try_proxies_skip by blast

text \<open>
  At the network whose first relay answers with an error page under an ok status and
  whose second relay delivers the feed.
\<close>

theorem fetchFeed_acceptance_test_witness:
  "attempt second_relay_up (hd proxyGenerators (RSS_URL ''BD'')) = None
   \<and> attempt second_relay_up (hd (tl proxyGenerators) (RSS_URL ''BD'')) = Some live_feed
   \<and> try_proxies second_relay_up (RSS_URL ''BD'') (hd proxyGenerators # tl proxyGenerators) =
       (Some live_feed,
        [''https://api.allorigins.win/raw?url=https%3A%2F%2Ftrends.google.com%2Ftrending%2Frss%3Fgeo%3DBD'',
         ''https://corsproxy.io/?https%3A%2F%2Ftrends.google.com%2Ftrending%2Frss%3Fgeo%3DBD''])"
proof -
  have urls: "hd proxyGenerators (RSS_URL ''BD'') =
      ''https://api.allorigins.win/raw?url=https%3A%2F%2Ftrends.google.com%2Ftrending%2Frss%3Fgeo%3DBD''"
    "hd (tl proxyGenerators) (RSS_URL ''BD'') =
      ''https://corsproxy.io/?https%3A%2F%2Ftrends.google.com%2Ftrending%2Frss%3Fgeo%3DBD''"
    by (simp_all add: proxyGenerators_def encoded_BD)
  have skipped: "attempt second_relay_up (hd proxyGenerators (RSS_URL ''BD'')) = None"
    unfolding urls by (simp add: attempt_def second_relay_up_def)
  have accepted: "attempt second_relay_up (hd (tl proxyGenerators) (RSS_URL ''BD'')) = Some live_feed"
    unfolding urls by (simp add: attempt_def second_relay_up_def live_feed_def)
  have rest: "try_proxies second_relay_up (RSS_URL ''BD'') (tl proxyGenerators) =
     (Some live_feed, [''https://corsproxy.io/?https%3A%2F%2Ftrends.google.com%2Ftrending%2Frss%3Fgeo%3DBD''])"
    using accepted urls by (simp add: proxyGenerators_def)
  from fetchFeed_acceptance_test [of second_relay_up "hd proxyGenerators (RSS_URL ''BD'')"
      live_feed "hd proxyGenerators" "RSS_URL ''BD''" "tl proxyGenerators"] skipped
  have "try_proxies second_relay_up (RSS_URL ''BD'') (hd proxyGenerators # tl proxyGenerators) =
          (fst (try_proxies second_relay_up (RSS_URL ''BD'') (tl proxyGenerators)),
           hd proxyGenerators (RSS_URL ''BD'') #
           snd (try_proxies second_relay_up (RSS_URL ''BD'') (tl proxyGenerators)))"
    by blast
  with skipped accepted show ?thesis
    unfolding rest by (simp add: urls)
qed


section \<open>Facts about the loader\<close>

lemma loadData_try_live:
  assumes "fetchFeed_result (fetch w) ''BD'' = Inr bdXml"
    and "fetchFeed_result (fetch w) ''GB'' = Inr ukXml"
    and "parseTrendsXML d bdXml \<noteq> []" and "parseTrendsXML d ukXml \<noteq> []"
  shows "loadData_try d w s =
     (None, s\<lparr>bdTrends := parseTrendsXML d bdXml, ukTrends := parseTrendsXML d ukXml,
               isLive := True, lastUpdated := clock w\<rparr>)"
  using assms by (simp add: loadData_try_def Promise_all2_def)

lemma loadData_try_throws:
  assumes "(\<exists>e. fetchFeed_result (fetch w) ''BD'' = Inl e) \<or>
     (\<exists>e. fetchFeed_result (fetch w) ''GB'' = Inl e) \<or>
     (\<exists>bdXml ukXml. fetchFeed_result (fetch w) ''BD'' = Inr bdXml \<and>
        fetchFeed_result (fetch w) ''GB'' = Inr ukXml \<and>
        (parseTrendsXML d bdXml = [] \<or> parseTrendsXML d ukXml = []))"
  shows "\<exists>e. loadData_try d w s = (Some e, s)"
  using assms by (auto simp: loadData_try_def Promise_all2_def split: sum.splits)

lemma loadData_try_cases:
  "(\<exists>e. loadData_try d w s = (Some e, s)) \<or>
   (\<exists>bdXml ukXml. fetchFeed_result (fetch w) ''BD'' = Inr bdXml \<and>
        fetchFeed_result (fetch w) ''GB'' = Inr ukXml \<and>
        parseTrendsXML d bdXml \<noteq> [] \<and> parseTrendsXML d ukXml \<noteq> [])"
  by (auto simp: loadData_try_def Promise_all2_def Let_def split: sum.splits)

lemma loadData_resume_live:
  assumes "fetchFeed_result (fetch w) ''BD'' = Inr bdXml"
    and "fetchFeed_result (fetch w) ''GB'' = Inr ukXml"
    and "parseTrendsXML d bdXml \<noteq> []" and "parseTrendsXML d ukXml \<noteq> []"
  shows "loadData_resume d w s =
     (None, s\<lparr>bdTrends := parseTrendsXML d bdXml, ukTrends := parseTrendsXML d ukXml,
               isLive := True, lastUpdated := clock w, loading := False\<rparr>)"
  by (simp add: loadData_resume_def try_catch_finally_def loadData_try_live [OF assms]
      loadData_finally_def)

lemma loadData_resume_fallback:
  assumes "loadData_try d w s = (Some e, s)"
  shows "loadData_resume d w s =
     (None, s\<lparr>bdTrends := parseTrendsXML d (BANGLADESH_XML d),
               ukTrends := parseTrendsXML d (UK_XML d),
               isLive := False, lastUpdated := clock w,
               errorMessage := Some fallback_notice, loading := False\<rparr>)"
  by (simp add: loadData_resume_def try_catch_finally_def assms loadData_catch_def
      loadData_finally_def)

text \<open>The two ways an invocation ends, whatever state it finds when its fetches settle.\<close>

lemma loadData_resume_cases:
  "(\<exists>bdXml ukXml. fetchFeed_result (fetch w) ''BD'' = Inr bdXml \<and>
        fetchFeed_result (fetch w) ''GB'' = Inr ukXml \<and>
        parseTrendsXML d bdXml \<noteq> [] \<and> parseTrendsXML d ukXml \<noteq> [] \<and>
        loadData_resume d w s =
          (None, s\<lparr>bdTrends := parseTrendsXML d bdXml, ukTrends := parseTrendsXML d ukXml,
                    isLive := True, lastUpdated := clock w, loading := False\<rparr>))
   \<or> loadData_resume d w s =
          (None, s\<lparr>bdTrends := parseTrendsXML d (BANGLADESH_XML d),
                    ukTrends := parseTrendsXML d (UK_XML d),
                    isLive := False, lastUpdated := clock w,
                    errorMessage := Some fallback_notice, loading := False\<rparr>)"
  using loadData_try_cases [of d w s] loadData_resume_live [of w _ _ d s]
    loadData_resume_fallback [of d w s] by blast

text \<open>An invocation on its own is a call followed at once by its completion.\<close>

lemma run_single: "run d [Invoke, Settle w] s = snd (loadData d w s)"
  by (simp add: loadData_def)

lemma example_live:
  "fetchFeed_result (fetch live_world) geo = Inr live_feed"
  "parseTrendsXML example_deps live_feed \<noteq> []"
  by (simp_all add: live_world_def fetchFeed_result_up example_deps_def example_parse_live)

lemma example_down:
  "fetchFeed_result (fetch down_world) geo = Inl (unreachable geo)"
  by (simp add: down_world_def fetchFeed_result_down)

lemma example_empty:
  "fetchFeed_result (fetch empty_world) geo = Inr empty_feed"
  "parseTrendsXML example_deps empty_feed = []"
  by (simp_all add: empty_world_def fetchFeed_result_empty example_deps_def example_parse_empty)

lemma example_samples:
  "parseTrendsXML example_deps (BANGLADESH_XML example_deps) =
     [\<lparr>id_str = ''trend-0'', title = ''<rss><channel><item>Sample BD</item></channel></rss>'',
       traffic = ''100+'', pubDate = ''Tue, 03 Nov 2026 09:00:00 GMT'', mainPicture = None,
       pictureSource = None, newsItems = []\<rparr>]"
  "parseTrendsXML example_deps (UK_XML example_deps) =
     [\<lparr>id_str = ''trend-0'', title = ''<rss><channel><item>Sample UK</item></channel></rss>'',
       traffic = ''100+'', pubDate = ''Tue, 03 Nov 2026 09:00:00 GMT'', mainPicture = None,
       pictureSource = None, newsItems = []\<rparr>]"
  by (simp_all add: example_deps_def example_parse_def)

lemma example_clock:
  "clock live_world = ''09:15:07''" "clock down_world = ''09:15:02''"
  "clock empty_world = ''09:15:03''"
  by (simp_all add: live_world_def down_world_def empty_world_def)



section \<open>Facts about the sort layer\<close>

text \<open>
  With the comparator of \<open>sortTrends\<close> the insertion sort above is the stable sort of the
  library, by the timestamp for \<open>Asc\<close> and by the negated timestamp for \<open>Desc\<close>.
\<close>

lemma insert_by_insort_key:
  "(\<And>y. cmp x y \<le> 0 \<longleftrightarrow> f x \<le> f y) \<Longrightarrow> insert_by cmp x ys = insort_key f x ys"
  by (induction ys) simp_all

lemma sort_by_sort_key:
  "(\<And>x y. cmp x y \<le> 0 \<longleftrightarrow> f x \<le> f y) \<Longrightarrow> sort_by cmp xs = sort_key f xs"
  unfolding sort_by_def sort_key_def
  by (induction xs) (simp_all add: insert_by_insort_key)

lemma sortTrends_Asc: "sortTrends getTime Asc items = sort_key (timestamp getTime) items"
  unfolding sortTrends_def
  by (rule sort_by_sort_key) (simp add: compare_dates_def)

lemma sortTrends_Desc: "sortTrends getTime Desc items = sort_key (\<lambda>a. - timestamp getTime a) items"
  unfolding sortTrends_def
  by (rule sort_by_sort_key) (simp add: compare_dates_def)

lemma mset_sortTrends: "mset (sortTrends getTime order items) = mset items"
  by (cases order) (simp_all add: sortTrends_Asc sortTrends_Desc)

lemma set_sortTrends: "set (sortTrends getTime order items) = set items"
  by (cases order) (simp_all add: sortTrends_Asc sortTrends_Desc)

lemma length_sortTrends: "length (sortTrends getTime order items) = length items"
  by (cases order) (simp_all add: sortTrends_Asc sortTrends_Desc)

lemma sorted_Asc: "sorted (map (timestamp getTime) (sortTrends getTime Asc items))"
  by (simp add: sortTrends_Asc)

lemma sorted_Desc: "sorted (rev (map (timestamp getTime) (sortTrends getTime Desc items)))"
proof -
  have "sorted (map (\<lambda>a. - timestamp getTime a) (sortTrends getTime Desc items))"
    by (simp add: sortTrends_Desc)
  then show ?thesis
    by (simp add: sorted_wrt_rev sorted_wrt_map)
qed

lemma keys_Desc_rev_Asc:
  "map (timestamp getTime) (sortTrends getTime Desc items) =
   rev (map (timestamp getTime) (sortTrends getTime Asc items))"
proof -
  let ?ts = "timestamp getTime"
  let ?d = "map ?ts (sortTrends getTime Desc items)"
  let ?a = "map ?ts (sortTrends getTime Asc items)"
  have "sorted (rev ?d)" by (rule sorted_Desc)
  moreover have "sorted ?a" by (rule sorted_Asc)
  moreover have "mset (rev ?d) = mset ?a" by (simp add: mset_sortTrends)
  ultimately have "rev ?d = ?a"
    by (metis properties_for_sort)
  then show ?thesis by (metis rev_rev_ident)
qed

lemma Desc_rev_Asc:
  assumes "distinct (map (timestamp getTime) items)"
  shows "sortTrends getTime Desc items = rev (sortTrends getTime Asc items)"
proof -
  let ?ts = "timestamp getTime"
  let ?d = "sortTrends getTime Desc items"
  let ?a = "sortTrends getTime Asc items"
  from assms have inj: "inj_on ?ts (set items)" and dist: "distinct items"
    by (simp_all add: distinct_map)
  have "inj_on ?ts (set (rev ?d) \<union> set ?a)"
    using inj by (simp add: set_sortTrends)
  moreover have "sorted (map ?ts (rev ?d))"
    using sorted_Desc [of getTime items] by (simp add: rev_map)
  moreover have "distinct (map ?ts (rev ?d))"
    using assms by (simp add: sortTrends_Desc distinct_map)
  moreover have "sorted (map ?ts ?a)" by (rule sorted_Asc)
  moreover have "distinct (map ?ts ?a)"
    using assms by (simp add: sortTrends_Asc distinct_map)
  moreover have "set (rev ?d) = set ?a" by (simp add: set_sortTrends)
  ultimately have "rev ?d = ?a" by (rule map_sorted_distinct_set_unique)
  then show ?thesis by (metis rev_rev_ident)
qed

lemma stable_sortTrends:
  "filter (\<lambda>a. timestamp getTime a = k) (sortTrends getTime order items) =
   filter (\<lambda>a. timestamp getTime a = k) items"
proof (cases order)
  case Asc
  then show ?thesis by (simp add: sortTrends_Asc sort_key_stable)
next
  case Desc
  have "filter (\<lambda>a. - timestamp getTime a = - k) (sort_key (\<lambda>a. - timestamp getTime a) items) =
        filter (\<lambda>a. - timestamp getTime a = - k) items"
    by (rule sort_key_stable)
  with Desc show ?thesis by (simp add: sortTrends_Desc)
qed

lemma sortTrends_ref_value:
  assumes "items < length h"
  shows "sortTrends_ref getTime order h items =
     (h @ [sortTrends getTime order (h ! items)], length h)"
  using assms
  by (simp add: sortTrends_ref_def spread_def sort_in_place_def sortTrends_def nth_append)

lemma example_timestamps:
  "timestamp example_getTime (item_at name ''Tue, 03 Nov 2026 09:00:00 GMT'') = 1793696400000"
  "timestamp example_getTime (item_at name ''Tue, 03 Nov 2026 08:30:00 GMT'') = 1793694600000"
  "timestamp example_getTime (item_at name ''1969-12-31T23:59:59.000Z'') = - 1000"
  "timestamp example_getTime (item_at name []) = 0"
  by (simp_all add: timestamp_def example_getTime_def item_at_def)

lemma item_at_eq: "item_at name date = item_at name' date' \<longleftrightarrow> name = name' \<and> date = date'"
  by (auto simp: item_at_def)


lemma example_state_timestamps:
  "distinct (map (timestamp example_getTime) (bdTrends example_state))"
  "distinct (map (timestamp example_getTime) (ukTrends example_state))"
  by (simp_all add: example_state_def example_timestamps)

lemma sorted_hd_least: "sorted (map f ys) \<Longrightarrow> y \<in> set ys \<Longrightarrow> f (hd ys) \<le> (f y :: int)"
  by (cases ys) auto

lemma sorted_rev_last_least:
  "sorted (rev (map f ys)) \<Longrightarrow> y \<in> set ys \<Longrightarrow> f (last ys) \<le> (f y :: int)"
  using sorted_hd_least [of f "rev ys" y] by (simp add: rev_map hd_rev)


section \<open>The loader: the two branches and the exit\<close>

text \<open>
  Claim C1. When either fetch rejects, or both resolve and either parse is empty, an
  invocation of \<open>loadData\<close> ends as follows, whatever state it finds when its fetches
  settle: both item sequences are the parses of the two bundled documents, \<open>isLive\<close> is
  false, \<open>lastUpdated\<close> is the current time, \<open>errorMessage\<close> is the fixed notice and
  \<open>loading\<close> is false. Nothing of the state depends on what the fetches delivered, and
  no other field changes. The same holds of an invocation run from entry to exit.
\<close>

theorem loadData_fallback_branch:
  assumes "(\<exists>e. fetchFeed_result (fetch w) ''BD'' = Inl e) \<or>
     (\<exists>e. fetchFeed_result (fetch w) ''GB'' = Inl e) \<or>
     (\<exists>bdXml ukXml. fetchFeed_result (fetch w) ''BD'' = Inr bdXml \<and>
        fetchFeed_result (fetch w) ''GB'' = Inr ukXml \<and>
        (parseTrendsXML d bdXml = [] \<or> parseTrendsXML d ukXml = []))"
  shows "loadData_resume d w s =
     (None, s\<lparr>bdTrends := parseTrendsXML d (BANGLADESH_XML d),
               ukTrends := parseTrendsXML d (UK_XML d),
               isLive := False, lastUpdated := clock w,
               errorMessage := Some fallback_notice, loading := False\<rparr>)
    \<and> loadData d w s =
     (None, s\<lparr>bdTrends := parseTrendsXML d (BANGLADESH_XML d),
               ukTrends := parseTrendsXML d (UK_XML d),
               isLive := False, lastUpdated := clock w,
               errorMessage := Some fallback_notice, loading := False\<rparr>)"
proof -
  have resume: "loadData_resume d w t =
     (None, t\<lparr>bdTrends := parseTrendsXML d (BANGLADESH_XML d),
               ukTrends := parseTrendsXML d (UK_XML d),
               isLive := False, lastUpdated := clock w,
               errorMessage := Some fallback_notice, loading := False\<rparr>)" for t
  proof -
    from loadData_try_throws [OF assms] obtain e where "loadData_try d w t = (Some e, t)"
      by blast
    then show ?thesis by (rule loadData_resume_fallback)
  qed
  show ?thesis
    by (simp add: loadData_def resume loadData_enter_def)
qed

text \<open>At the world where every relay is down, and at the world of the empty feed.\<close>

theorem loadData_fallback_branch_witness:
  "fetchFeed_result (fetch down_world) ''BD'' = Inl (unreachable ''BD'')
   \<and> snd (loadData example_deps down_world initial_state) =
       \<lparr>bdTrends = parseTrendsXML example_deps (BANGLADESH_XML example_deps),
        ukTrends = parseTrendsXML example_deps (UK_XML example_deps),
        lastUpdated = ''09:15:02'', loading = False, isLive = False,
        errorMessage = Some fallback_notice, sortOrder = Desc\<rparr>
   \<and> fetchFeed_result (fetch empty_world) ''BD'' = Inr empty_feed
   \<and> fetchFeed_result (fetch empty_world) ''GB'' = Inr empty_feed
   \<and> parseTrendsXML example_deps empty_feed = []
   \<and> snd (loadData example_deps empty_world initial_state) =
       \<lparr>bdTrends = parseTrendsXML example_deps (BANGLADESH_XML example_deps),
        ukTrends = parseTrendsXML example_deps (UK_XML example_deps),
        lastUpdated = ''09:15:03'', loading = False, isLive = False,
        errorMessage = Some fallback_notice, sortOrder = Desc\<rparr>"
proof -
  have down: "\<exists>e. fetchFeed_result (fetch down_world) ''BD'' = Inl e"
    by (simp add: example_down)
  have empty: "\<exists>bdXml ukXml. fetchFeed_result (fetch empty_world) ''BD'' = Inr bdXml \<and>
        fetchFeed_result (fetch empty_world) ''GB'' = Inr ukXml \<and>
        (parseTrendsXML example_deps bdXml = [] \<or> parseTrendsXML example_deps ukXml = [])"
    by (simp add: example_empty)
  from down empty
    loadData_fallback_branch [of down_world example_deps initial_state]
    loadData_fallback_branch [of empty_world example_deps initial_state]
  show ?thesis
    by (simp add: example_down example_empty example_clock initial_state_def)
qed

text \<open>
  The success branch as the code has it. It writes the two item sequences, \<open>isLive\<close>,
  \<open>lastUpdated\<close> and, through the final block, \<open>loading\<close>; it does not write
  \<open>errorMessage\<close>, which line 56 alone clears, before the \<open>await\<close>. An invocation that
  runs from entry to exit with nothing in between therefore ends with \<open>errorMessage\<close>
  null.
\<close>

lemma loadData_success_branch:
  assumes "fetchFeed_result (fetch w) ''BD'' = Inr bdXml"
    and "fetchFeed_result (fetch w) ''GB'' = Inr ukXml"
    and "parseTrendsXML d bdXml \<noteq> []" and "parseTrendsXML d ukXml \<noteq> []"
  shows "loadData_resume d w s =
     (None, s\<lparr>bdTrends := parseTrendsXML d bdXml, ukTrends := parseTrendsXML d ukXml,
               isLive := True, lastUpdated := clock w, loading := False\<rparr>)
   \<and> loadData d w s =
     (None, s\<lparr>bdTrends := parseTrendsXML d bdXml, ukTrends := parseTrendsXML d ukXml,
               isLive := True, lastUpdated := clock w, errorMessage := None,
               loading := False\<rparr>)"
  by (simp add: loadData_def loadData_resume_live [OF assms] loadData_enter_def)

text \<open>
  Claim C2. An invocation of \<open>loadData\<close> in which both fetches resolve and both parses
  are non-empty is to end with \<open>errorMessage\<close> null. The code clears the notice on entry
  for every load and writes it together with \<open>isLive\<close> in the fallback branch, but the
  success branch does not clear it, and the timer calls \<open>loadData\<close> whether or not a
  load is in flight. So the code misses the claim when invocations overlap: two calls
  are made from the initial state; the fetches of the second fail first, and its
  fallback branch writes the notice; then the fetches of the first resolve with
  non-empty parses, and its success branch leaves the notice in place. At the exit of
  that invocation \<open>errorMessage\<close> is not null.
\<close>

theorem loadData_success_stale_error:
  "fetchFeed_result (fetch live_world) ''BD'' = Inr live_feed
   \<and> fetchFeed_result (fetch live_world) ''GB'' = Inr live_feed
   \<and> parseTrendsXML example_deps live_feed \<noteq> []
   \<and> errorMessage (run example_deps [Invoke, Invoke, Settle down_world, Settle live_world]
        initial_state) \<noteq> None"
proof -
  have down: "\<exists>e. loadData_try example_deps down_world t = (Some e, t)" for t
    by (rule loadData_try_throws) (simp add: example_down)
  have fallback: "errorMessage (snd (loadData_resume example_deps down_world t)) =
      Some fallback_notice" for t
    using down [of t] loadData_resume_fallback [of example_deps down_world t] by auto
  have live: "errorMessage (snd (loadData_resume example_deps live_world t)) = errorMessage t" for t
    by (simp add: loadData_resume_live [of live_world live_feed live_feed] example_live)
  show ?thesis
    by (simp add: example_live fallback live)
qed

text \<open>
  Claim C8. Every invocation of \<open>loadData\<close> leaves \<open>loading\<close> false at its exit, in
  either branch and whatever state it finds when its fetches settle, and no error
  escapes it. At the exit the state holds live data (both fetches resolved, \<open>isLive\<close> is
  true and the item sequences are the parses of what they delivered) or fallback data
  (\<open>isLive\<close> is false and the item sequences are the parses of the bundled documents).
\<close>

theorem loadData_exit:
  "fst (loadData_resume d w s) = None
   \<and> loading (snd (loadData_resume d w s)) = False
   \<and> ((\<exists>bdXml ukXml. fetchFeed_result (fetch w) ''BD'' = Inr bdXml \<and>
          fetchFeed_result (fetch w) ''GB'' = Inr ukXml \<and>
          isLive (snd (loadData_resume d w s)) \<and>
          bdTrends (snd (loadData_resume d w s)) = parseTrendsXML d bdXml \<and>
          ukTrends (snd (loadData_resume d w s)) = parseTrendsXML d ukXml)
       \<or> (\<not> isLive (snd (loadData_resume d w s)) \<and>
          bdTrends (snd (loadData_resume d w s)) = parseTrendsXML d (BANGLADESH_XML d) \<and>
          ukTrends (snd (loadData_resume d w s)) = parseTrendsXML d (UK_XML d)))
   \<and> fst (loadData d w s) = None
   \<and> loading (snd (loadData d w s)) = False"
proof -
  have exit: "fst (loadData_resume d w t) = None \<and> loading (snd (loadData_resume d w t)) = False"
    for t
    using loadData_resume_cases [of w d t] by auto
  have data: "(\<exists>bdXml ukXml. fetchFeed_result (fetch w) ''BD'' = Inr bdXml \<and>
          fetchFeed_result (fetch w) ''GB'' = Inr ukXml \<and>
          isLive (snd (loadData_resume d w s)) \<and>
          bdTrends (snd (loadData_resume d w s)) = parseTrendsXML d bdXml \<and>
          ukTrends (snd (loadData_resume d w s)) = parseTrendsXML d ukXml)
       \<or> (\<not> isLive (snd (loadData_resume d w s)) \<and>
          bdTrends (snd (loadData_resume d w s)) = parseTrendsXML d (BANGLADESH_XML d) \<and>
          ukTrends (snd (loadData_resume d w s)) = parseTrendsXML d (UK_XML d))"
    using loadData_resume_cases [of w d s] by auto
  from exit [of s] exit [of "loadData_enter s"] data show ?thesis
    by (simp add: loadData_def)
qed

text \<open>At the world where every relay is down and at the world of the live feed.\<close>

theorem loadData_exit_witness:
  "fst (loadData example_deps down_world initial_state) = None
   \<and> loading (snd (loadData example_deps down_world initial_state)) = False
   \<and> \<not> isLive (snd (loadData_resume example_deps down_world initial_state))
   \<and> bdTrends (snd (loadData_resume example_deps down_world initial_state)) =
       parseTrendsXML example_deps (BANGLADESH_XML example_deps)
   \<and> isLive (snd (loadData_resume example_deps live_world initial_state))
   \<and> bdTrends (snd (loadData_resume example_deps live_world initial_state)) =
       parseTrendsXML example_deps live_feed"
proof -
  have "\<not> isLive (snd (loadData_resume example_deps live_world initial_state)) \<Longrightarrow> False"
    by (simp add: loadData_resume_live [of live_world live_feed live_feed] example_live)
  moreover have "isLive (snd (loadData_resume example_deps down_world initial_state)) \<Longrightarrow> False"
    using loadData_try_throws [of down_world example_deps initial_state]
      loadData_resume_fallback [of example_deps down_world initial_state]
    by (auto simp: example_down)
  ultimately show ?thesis
    using loadData_exit [of example_deps down_world initial_state]
      loadData_exit [of example_deps live_world initial_state]
    by (auto simp: example_live)
qed

text \<open>
  The two branches and the notice, as the code has them. The fallback branch leaves
  \<open>isLive\<close> false with the fixed notice as \<open>errorMessage\<close>; the success branch leaves
  \<open>isLive\<close> true and \<open>errorMessage\<close> as it finds it. After an invocation that runs from
  entry to exit with nothing in between, \<open>errorMessage\<close> is null if and only if
  \<open>isLive\<close> is true.
\<close>

lemma loadData_error_iff_offline:
  "(errorMessage (snd (loadData d w s)) = None \<longleftrightarrow> isLive (snd (loadData d w s)))
   \<and> (errorMessage s = None \<longrightarrow>
        (errorMessage (snd (loadData_resume d w s)) = None \<longleftrightarrow>
         isLive (snd (loadData_resume d w s))))
   \<and> (\<not> isLive (snd (loadData_resume d w s)) \<longrightarrow>
        errorMessage (snd (loadData_resume d w s)) = Some fallback_notice)
   \<and> (isLive (snd (loadData_resume d w s)) \<longrightarrow>
        errorMessage (snd (loadData_resume d w s)) = errorMessage s)"
proof -
  have resume: "(\<not> isLive (snd (loadData_resume d w t)) \<longrightarrow>
        errorMessage (snd (loadData_resume d w t)) = Some fallback_notice)
   \<and> (isLive (snd (loadData_resume d w t)) \<longrightarrow>
        errorMessage (snd (loadData_resume d w t)) = errorMessage t)" for t
    using loadData_resume_cases [of w d t] by auto
  from resume [of s] resume [of "loadData_enter s"] show ?thesis
    by (auto simp: loadData_def loadData_enter_def)
qed

text \<open>
  Claim C10. After every completed invocation of \<open>loadData\<close>, \<open>errorMessage\<close> is to be
  null if and only if \<open>isLive\<close> is true. The code keeps the two together in the
  fallback branch and clears the notice on entry, but not in the success branch, so it
  misses the claim when invocations overlap: two calls are made from the initial
  state; the second meets empty feeds and takes the fallback branch; then the first
  completes through the success branch. After that completed invocation \<open>isLive\<close> is
  true and \<open>errorMessage\<close> is the notice: the header shows the live feed together with
  the banner of the cached data.
\<close>

theorem loadData_live_with_error:
  "isLive (run example_deps [Invoke, Invoke, Settle empty_world, Settle live_world] initial_state)
   \<and> errorMessage (run example_deps [Invoke, Invoke, Settle empty_world, Settle live_world]
        initial_state) = Some fallback_notice"
proof -
  have empty: "\<exists>e. loadData_try example_deps empty_world t = (Some e, t)" for t
    by (rule loadData_try_throws) (simp add: example_empty)
  have fallback: "errorMessage (snd (loadData_resume example_deps empty_world t)) =
      Some fallback_notice" for t
    using empty [of t] loadData_resume_fallback [of example_deps empty_world t] by auto
  have live: "errorMessage (snd (loadData_resume example_deps live_world t)) = errorMessage t"
    "isLive (snd (loadData_resume example_deps live_world t))" for t
    by (simp_all add: loadData_resume_live [of live_world live_feed live_feed] example_live)
  show ?thesis
    by (simp add: fallback live)
qed


section \<open>The sort layer: order, reversal and the toggle\<close>

text \<open>
  Claim C5, as amended. In \<open>sortTrends\<close> an item whose \<open>pubDate\<close> does not parse is keyed
  as timestamp 0 and is placed where an item dated at the epoch is placed: it is in
  both results, the result under \<open>Asc\<close> is in non-decreasing order of timestamps and
  the result under \<open>Desc\<close> in non-increasing order. When every other item of the list is
  dated after the epoch, it is first under \<open>Asc\<close> and last under \<open>Desc\<close>.
\<close>

theorem sortTrends_unparseable_position:
  assumes "u \<in> set items" and "getTime (pubDate u) = None"
  shows "timestamp getTime u = 0
    \<and> u \<in> set (sortTrends getTime Asc items)
    \<and> u \<in> set (sortTrends getTime Desc items)
    \<and> sorted (map (timestamp getTime) (sortTrends getTime Asc items))
    \<and> sorted (rev (map (timestamp getTime) (sortTrends getTime Desc items)))
    \<and> ((\<forall>a\<in>set items. a \<noteq> u \<longrightarrow> 0 < timestamp getTime a) \<longrightarrow>
         hd (sortTrends getTime Asc items) = u \<and> last (sortTrends getTime Desc items) = u)"
proof -
  let ?ts = "timestamp getTime"
  let ?a = "sortTrends getTime Asc items"
  let ?d = "sortTrends getTime Desc items"
  have key: "?ts u = 0"
    using assms(2) by (simp add: timestamp_def)
  have mem: "u \<in> set ?a" "u \<in> set ?d"
    using assms(1) by (simp_all add: set_sortTrends)
  have ends: "hd ?a = u \<and> last ?d = u" if later: "\<forall>a\<in>set items. a \<noteq> u \<longrightarrow> 0 < ?ts a"
  proof
    have "?a \<noteq> []" using mem(1) by auto
    then have "hd ?a \<in> set items"
      using hd_in_set [of ?a] by (simp add: set_sortTrends)
    moreover have "?ts (hd ?a) \<le> ?ts u"
      using sorted_Asc mem(1) by (rule sorted_hd_least)
    ultimately show "hd ?a = u"
      using later key by force
  next
    have "?d \<noteq> []" using mem(2) by auto
    then have "last ?d \<in> set items"
      using last_in_set [of ?d] by (simp add: set_sortTrends)
    moreover have "?ts (last ?d) \<le> ?ts u"
      using sorted_Desc mem(2) by (rule sorted_rev_last_least)
    ultimately show "last ?d = u"
      using later key by force
  qed
  from key mem ends sorted_Asc [of getTime items] sorted_Desc [of getTime items]
  show ?thesis by blast
qed

text \<open>At a list of two dated items around an item with an empty date.\<close>

theorem sortTrends_unparseable_position_witness:
  "item_at ''u'' [] \<in> set [item_at ''a'' ''Tue, 03 Nov 2026 09:00:00 GMT'', item_at ''u'' [],
      item_at ''b'' ''Tue, 03 Nov 2026 08:30:00 GMT'']
   \<and> example_getTime (pubDate (item_at ''u'' [])) = None
   \<and> hd (sortTrends example_getTime Asc
       [item_at ''a'' ''Tue, 03 Nov 2026 09:00:00 GMT'', item_at ''u'' [],
        item_at ''b'' ''Tue, 03 Nov 2026 08:30:00 GMT'']) = item_at ''u'' []
   \<and> last (sortTrends example_getTime Desc
       [item_at ''a'' ''Tue, 03 Nov 2026 09:00:00 GMT'', item_at ''u'' [],
        item_at ''b'' ''Tue, 03 Nov 2026 08:30:00 GMT'']) = item_at ''u'' []"
proof -
  let ?items = "[item_at ''a'' ''Tue, 03 Nov 2026 09:00:00 GMT'', item_at ''u'' [],
      item_at ''b'' ''Tue, 03 Nov 2026 08:30:00 GMT'']"
  have mem: "item_at ''u'' [] \<in> set ?items" by simp
  have nan: "example_getTime (pubDate (item_at ''u'' [])) = None"
    by (simp add: example_getTime_def item_at_def)
  have later: "\<forall>a\<in>set ?items. a \<noteq> item_at ''u'' [] \<longrightarrow> 0 < timestamp example_getTime a"
    by (simp add: example_timestamps)
  from sortTrends_unparseable_position [of "item_at ''u'' []" ?items example_getTime]
    later mem nan
  show ?thesis by blast
qed

text \<open>
  Claim C5 as first stated fails on a list with a date before the epoch: next to an
  item dated one second before the epoch, the item with the empty date is neither
  first under \<open>Asc\<close> nor last under \<open>Desc\<close>.
\<close>

theorem sortTrends_unparseable_not_oldest:
  "example_getTime (pubDate (item_at ''u'' [])) = None
   \<and> hd (sortTrends example_getTime Asc
         [item_at ''u'' [], item_at ''p'' ''1969-12-31T23:59:59.000Z''])
       \<noteq> item_at ''u'' []
   \<and> last (sortTrends example_getTime Desc
         [item_at ''u'' [], item_at ''p'' ''1969-12-31T23:59:59.000Z''])
       \<noteq> item_at ''u'' []"
  by (simp add: sortTrends_def sort_by_def compare_dates_def example_timestamps item_at_eq)
    (simp add: example_getTime_def item_at_def)

text \<open>
  Claim C6. For a list whose timestamps are pairwise distinct, the result under \<open>Desc\<close>
  is the reverse of the result under \<open>Asc\<close>. For every list the two results hold the
  same items, the sequence of timestamps of one is the reverse of that of the other,
  and the items sharing a timestamp \<open>k\<close> come in the same relative order in both (that
  of the input), which is where the two results differ from exact reverses.
\<close>

theorem sortTrends_desc_reverse_asc:
  "(distinct (map (timestamp getTime) items) \<longrightarrow>
      sortTrends getTime Desc items = rev (sortTrends getTime Asc items))
   \<and> map (timestamp getTime) (sortTrends getTime Desc items) =
       rev (map (timestamp getTime) (sortTrends getTime Asc items))
   \<and> mset (sortTrends getTime Desc items) = mset (rev (sortTrends getTime Asc items))
   \<and> filter (\<lambda>a. timestamp getTime a = k) (sortTrends getTime Desc items) =
       filter (\<lambda>a. timestamp getTime a = k) (sortTrends getTime Asc items)"
  using Desc_rev_Asc [of getTime items] keys_Desc_rev_Asc [of getTime items]
  by (simp add: mset_sortTrends stable_sortTrends)

text \<open>At the list of three items with distinct timestamps.\<close>

theorem sortTrends_desc_reverse_asc_witness:
  "distinct (map (timestamp example_getTime)
       [item_at ''a'' ''Tue, 03 Nov 2026 09:00:00 GMT'', item_at ''u'' [],
        item_at ''b'' ''Tue, 03 Nov 2026 08:30:00 GMT''])
   \<and> sortTrends example_getTime Desc
       [item_at ''a'' ''Tue, 03 Nov 2026 09:00:00 GMT'', item_at ''u'' [],
        item_at ''b'' ''Tue, 03 Nov 2026 08:30:00 GMT''] =
      rev [item_at ''u'' [], item_at ''b'' ''Tue, 03 Nov 2026 08:30:00 GMT'',
           item_at ''a'' ''Tue, 03 Nov 2026 09:00:00 GMT'']"
proof -
  let ?items = "[item_at ''a'' ''Tue, 03 Nov 2026 09:00:00 GMT'', item_at ''u'' [],
      item_at ''b'' ''Tue, 03 Nov 2026 08:30:00 GMT'']"
  have dist: "distinct (map (timestamp example_getTime) ?items)"
    by (simp add: example_timestamps)
  have asc: "sortTrends example_getTime Asc ?items =
      [item_at ''u'' [], item_at ''b'' ''Tue, 03 Nov 2026 08:30:00 GMT'',
       item_at ''a'' ''Tue, 03 Nov 2026 09:00:00 GMT'']"
    by (simp add: sortTrends_def sort_by_def compare_dates_def example_timestamps)
  from sortTrends_desc_reverse_asc [of example_getTime ?items] dist
  have "sortTrends example_getTime Desc ?items = rev (sortTrends example_getTime Asc ?items)"
    by blast
  with dist show ?thesis unfolding asc by blast
qed

text \<open>
  Claim C7. \<open>sortTrends\<close> leaves its input unchanged: called on a reference \<open>items\<close> into
  a store \<open>h\<close>, it leaves every array of \<open>h\<close> as it was, the array at \<open>items\<close>
  included, and returns a reference to a new array, which is the sorted list, a
  permutation of the input of the same length.
\<close>

theorem sortTrends_non_mutating:
  assumes "items < length h"
  shows "case sortTrends_ref getTime order h items of
           (h', r) \<Rightarrow>
             take (length h) h' = h
             \<and> h' ! items = h ! items
             \<and> r = length h \<and> length h' = Suc (length h)
             \<and> h' ! r = sortTrends getTime order (h ! items)
             \<and> mset (h' ! r) = mset (h ! items)
             \<and> length (h' ! r) = length (h ! items)"
  using assms
  by (simp add: sortTrends_ref_value nth_append mset_sortTrends length_sortTrends)

text \<open>At a store of one array of two items.\<close>

theorem sortTrends_non_mutating_witness:
  "(0::nat) < length [[item_at ''a'' ''Tue, 03 Nov 2026 09:00:00 GMT'', item_at ''u'' []]]
   \<and> (case sortTrends_ref example_getTime Asc
              [[item_at ''a'' ''Tue, 03 Nov 2026 09:00:00 GMT'', item_at ''u'' []]] 0 of
         (h', r) \<Rightarrow>
           h' ! 0 = [item_at ''a'' ''Tue, 03 Nov 2026 09:00:00 GMT'', item_at ''u'' []]
           \<and> r = 1
           \<and> h' ! r = [item_at ''u'' [], item_at ''a'' ''Tue, 03 Nov 2026 09:00:00 GMT''])"
proof -
  let ?h = "[[item_at ''a'' ''Tue, 03 Nov 2026 09:00:00 GMT'', item_at ''u'' []]]"
  have ref: "(0::nat) < length ?h" by simp
  have sorted: "sortTrends example_getTime Asc
      [item_at ''a'' ''Tue, 03 Nov 2026 09:00:00 GMT'', item_at ''u'' []] =
      [item_at ''u'' [], item_at ''a'' ''Tue, 03 Nov 2026 09:00:00 GMT'']"
    by (simp add: sortTrends_def sort_by_def compare_dates_def example_timestamps)
  from sortTrends_non_mutating [OF ref, of example_getTime Asc] ref sorted
  show ?thesis by (auto split: prod.splits)
qed

text \<open>
  Claim C9. Toggling the sort order twice gives back the state, and with it the sort
  order and the two derived orderings; one toggle changes the sort order. This holds
  for every item list. When the timestamps of a list are pairwise distinct, one toggle
  reverses its derived ordering, and the second reverses it back.
\<close>

theorem toggleSort_twice:
  "toggleSort (toggleSort s) = s
   \<and> sortOrder (toggleSort (toggleSort s)) = sortOrder s
   \<and> sortOrder (toggleSort s) \<noteq> sortOrder s
   \<and> sortedBdTrends getTime (toggleSort (toggleSort s)) = sortedBdTrends getTime s
   \<and> sortedUkTrends getTime (toggleSort (toggleSort s)) = sortedUkTrends getTime s
   \<and> (distinct (map (timestamp getTime) (bdTrends s)) \<longrightarrow>
        sortedBdTrends getTime (toggleSort s) = rev (sortedBdTrends getTime s))
   \<and> (distinct (map (timestamp getTime) (ukTrends s)) \<longrightarrow>
        sortedUkTrends getTime (toggleSort s) = rev (sortedUkTrends getTime s))"
proof -
  have twice: "toggleSort (toggleSort s) = s"
    by (cases "sortOrder s") (simp_all add: toggleSort_def)
  have flip: "sortOrder (toggleSort s) \<noteq> sortOrder s"
    by (simp add: toggleSort_def)
  have once: "sortTrends getTime (sortOrder (toggleSort s)) xs =
      rev (sortTrends getTime (sortOrder s) xs)"
    if "distinct (map (timestamp getTime) xs)" for xs
    using Desc_rev_Asc [OF that] by (cases "sortOrder s") (simp_all add: toggleSort_def)
  show ?thesis
    using flip once [of "bdTrends s"] once [of "ukTrends s"]
    by (simp add: twice sortedBdTrends_def sortedUkTrends_def) (simp add: toggleSort_def)
qed

text \<open>At the example state, whose two lists have distinct timestamps.\<close>

theorem toggleSort_twice_witness:
  "distinct (map (timestamp example_getTime) (bdTrends example_state))
   \<and> distinct (map (timestamp example_getTime) (ukTrends example_state))
   \<and> toggleSort (toggleSort example_state) = example_state
   \<and> sortedBdTrends example_getTime (toggleSort example_state) =
       rev (sortedBdTrends example_getTime example_state)
   \<and> sortedUkTrends example_getTime (toggleSort example_state) =
       rev (sortedUkTrends example_getTime example_state)"
  using toggleSort_twice [of example_state example_getTime] example_state_timestamps
  by blast

end
